theory Spec2Isabelle
  imports Complex_Main "HOL-Library.Word" "HOL-Library.Log_Nat"
begin

section \<open>Values of the proxy: JavaScript data as the handlers see it\<close>

text \<open>
  \<^verbatim>\<open>src/app.js\<close> moves three kinds of data: the JSON body of a request, the values
  the neo4j driver hands back in its records, and the JSON the proxy answers with. All of
  them are JavaScript values, so one datatype holds them.

  \<^item> A JavaScript number is a double. \<open>Fin q\<close> is the finite double whose value is the
    rational \<open>q\<close> (the two zeros are one value here, as they are for \<open>===\<close>).
  \<^item> \<open>JInt w\<close> is an object of the driver's \<open>Integer\<close> class: a signed 64-bit value, kept
    by the driver in two 32-bit halves \<open>low\<close> and \<open>high\<close>.
  \<^item> \<open>JObj es\<close> is an object with the default prototype, given by its own enumerable
    string-keyed entries in the order \<open>Object.entries\<close> lists them. Nodes, relationships,
    paths and the driver's other record values are such objects.
  \<^item> Strings are ASCII character lists.
\<close>

datatype jsnum = NaN | PosInf | NegInf | Fin rat

datatype jsval =
    JUndefined
  | JNull
  | JBool bool
  | JNum jsnum
  | JStr string
  | JInt "64 word"
  | JArr "jsval list"
  | JObj "(string \<times> jsval) list"

text \<open>A thrown JavaScript error, as far as the proxy reads it: \<open>err.code\<close> and \<open>err.message\<close>.\<close>

datatype js_error = JsError (err_code: jsval) (err_message: jsval)

text \<open>JavaScript truthiness, the test behind \<open>!x\<close>, \<open>x || y\<close> and \<open>if (x)\<close>.\<close>

fun truthy :: "jsval \<Rightarrow> bool" where
  "truthy JUndefined = False"
| "truthy JNull = False"
| "truthy (JBool b) = b"
| "truthy (JNum n) = (n \<noteq> NaN \<and> n \<noteq> Fin 0)"
| "truthy (JStr s) = (s \<noteq> [])"
| "truthy (JInt w) = True"
| "truthy (JArr xs) = True"
| "truthy (JObj es) = True"

text \<open>\<open>x || y\<close>\<close>

definition js_or :: "jsval \<Rightarrow> jsval \<Rightarrow> jsval" where
  "js_or x y = (if truthy x then x else y)"

text \<open>Reading a property of an object from its entries: \<open>undefined\<close> when there is none.\<close>

definition get_own :: "(string \<times> jsval) list \<Rightarrow> string \<Rightarrow> jsval" where
  "get_own es k = (case map_of es k of None \<Rightarrow> JUndefined | Some v \<Rightarrow> v)"

text \<open>
  \<open>v?.k\<close> for the names the handlers read (\<open>cypher\<close>, \<open>params\<close>): neither arrays,
  strings, numbers, booleans nor \<open>Integer\<close> objects have a property of such a name, and
  \<open>?.\<close> gives \<open>undefined\<close> on \<open>null\<close> and \<open>undefined\<close>.
\<close>

fun opt_member :: "jsval \<Rightarrow> string \<Rightarrow> jsval" where
  "opt_member (JObj es) k = get_own es k"
| "opt_member v k = JUndefined"

text \<open>
  \<open>out[k] = x\<close> on a plain object: an existing entry is overwritten in place, a new key
  is added behind the others. The name \<open>__proto__\<close> is the accessor of
  \<open>Object.prototype\<close>: assigning to it never creates an entry.
\<close>

fun obj_set :: "(string \<times> jsval) list \<Rightarrow> string \<Rightarrow> jsval \<Rightarrow> (string \<times> jsval) list" where
  "obj_set [] k x = (if k = ''__proto__'' then [] else [(k, x)])"
| "obj_set ((k', y) # es) k x =
     (if k = ''__proto__'' then (k', y) # es
      else if k' = k then (k', x) # es
      else (k', y) # obj_set es k x)"

subsection \<open>Decimal strings\<close>

definition digit_char :: "nat \<Rightarrow> char" where
  "digit_char d = ''0123456789'' ! d"

function nat_to_string :: "nat \<Rightarrow> string" where
  "nat_to_string n =
     (if n < 10 then [digit_char n] else nat_to_string (n div 10) @ [digit_char (n mod 10)])"
  by pat_completeness auto
termination
  by (relation "measure id") auto

definition int_to_string :: "int \<Rightarrow> string" where
  "int_to_string i = (if i < 0 then CHR ''-'' # nat_to_string (nat (- i)) else nat_to_string (nat i))"

text \<open>Reading a decimal string back, to state that \<open>int_to_string\<close> loses nothing.\<close>

definition digit_value :: "char \<Rightarrow> nat" where
  "digit_value c = of_char c - 48"

definition string_to_nat :: "string \<Rightarrow> nat" where
  "string_to_nat s = foldl (\<lambda>acc c. 10 * acc + digit_value c) 0 s"

definition string_to_int :: "string \<Rightarrow> int" where
  "string_to_int s =
     (case s of
        c # r \<Rightarrow> if c = CHR ''-'' then - int (string_to_nat r) else int (string_to_nat s)
      | [] \<Rightarrow> 0)"

subsection \<open>The driver's Integer\<close>

text \<open>
  Modelled from the spec: the \<open>Integer\<close> class of the neo4j driver is not part of the
  repository. The spec calls it the wide-integer form and fixes what \<open>serialize\<close> uses of
  it: the test for the safe-integer range of a double, the conversion to a number and the
  decimal string. The driver compares with \<open>Integer.MIN_SAFE_VALUE\<close> and
  \<open>Integer.MAX_SAFE_VALUE\<close> (\<open>-(2^53 - 1)\<close> and \<open>2^53 - 1\<close>), computes the number as
  \<open>high * 2^32 + (low >>> 0)\<close> in double arithmetic, that is the double nearest to the
  value, and prints in radix 10.
\<close>

definition MAX_SAFE_VALUE :: "64 word" where
  "MAX_SAFE_VALUE = 0x001FFFFFFFFFFFFF"

definition MIN_SAFE_VALUE :: "64 word" where
  "MIN_SAFE_VALUE = 0xFFE0000000000001"

definition inSafeRange :: "64 word \<Rightarrow> bool" where
  "inSafeRange w = (MIN_SAFE_VALUE \<le>s w \<and> w \<le>s MAX_SAFE_VALUE)"

text \<open>The double nearest to an integer (ties to the even significand of 53 bits).\<close>

definition double_of_int :: "int \<Rightarrow> int" where
  "double_of_int x =
     (let a = \<bar>x\<bar> in
      if a < 2 ^ 53 then x
      else
        let e = nat (bitlen a - 53);
            q = a div 2 ^ e;
            r = a mod 2 ^ e;
            h = 2 ^ (e - 1);
            q' = (if h < r \<or> (r = h \<and> odd q) then q + 1 else q)
        in sgn x * q' * 2 ^ e)"

definition toNumber :: "64 word \<Rightarrow> jsnum" where
  "toNumber w = Fin (of_int (double_of_int (sint w)))"

definition toString :: "64 word \<Rightarrow> string" where
  "toString w = int_to_string (sint w)"

definition int_low :: "64 word \<Rightarrow> int" where
  "int_low w = sint (ucast w :: 32 word)"

definition int_high :: "64 word \<Rightarrow> int" where
  "int_high w = sint (ucast (drop_bit 32 w) :: 32 word)"

text \<open>
  \<open>neo4j.isInt(v)\<close> is the driver's \<open>obj?.__isInteger__ === true\<close>: true of every
  \<open>Integer\<close> (the flag sits on its prototype) and of a plain object that carries the flag
  itself.
\<close>

fun isInt :: "jsval \<Rightarrow> bool" where
  "isInt (JInt w) = True"
| "isInt (JObj es) = (get_own es ''__isInteger__'' = JBool True)"
| "isInt v = False"

section \<open>The value serializer\<close>

text \<open>
  \<open>Object.entries(x)\<close> for a truthy \<open>x\<close>: the entries of an object, the indexed elements of
  an array, the indexed characters of a string, the two fields of an \<open>Integer\<close>, nothing
  for a number or a boolean. (\<open>serialize\<close> calls it under \<open>if (v.properties)\<close> only, so
  \<open>null\<close> and \<open>undefined\<close>, where it would throw, never reach it.)
\<close>

definition indexed :: "jsval list \<Rightarrow> (string \<times> jsval) list" where
  "indexed xs = zip (map nat_to_string [0 ..< length xs]) xs"

fun object_entries :: "jsval \<Rightarrow> (string \<times> jsval) list" where
  "object_entries (JObj es) = es"
| "object_entries (JArr xs) = indexed xs"
| "object_entries (JStr s) = indexed (map (\<lambda>c. JStr [c]) s)"
| "object_entries (JInt w) =
     [(''low'', JNum (Fin (of_int (int_low w)))), (''high'', JNum (Fin (of_int (int_high w))))]"
| "object_entries v = []"

text \<open>The \<open>TypeError\<close> of calling \<open>v.inSafeRange()\<close> on an object that has no such method.\<close>

definition not_a_function :: js_error where
  "not_a_function = JsError JUndefined (JStr ''v.inSafeRange is not a function'')"

text \<open>The measure under which the recursion of \<open>serialize\<close> ends.\<close>

fun vsize :: "jsval \<Rightarrow> nat" where
  "vsize (JArr xs) = Suc (sum_list (map (\<lambda>x. Suc (vsize x)) xs))"
| "vsize (JObj es) = Suc (sum_list (map (\<lambda>e. Suc (vsize (snd e))) es))"
| "vsize (JStr s) = 2 * length s - 1"
| "vsize (JInt w) = 1"
| "vsize v = 0"

definition esize :: "(string \<times> jsval) list \<Rightarrow> nat" where
  "esize es = sum_list (map (\<lambda>e. Suc (vsize (snd e))) es)"

lemma esize_simps [simp]:
  "esize [] = 0"
  "esize ((k, v) # es) = Suc (vsize v) + esize es"
  by (simp_all add: esize_def)

lemma esize_zip:
  "length ks = length xs \<Longrightarrow> esize (zip ks xs) = sum_list (map (\<lambda>x. Suc (vsize x)) xs)"
  by (induction ks xs rule: list_induct2) simp_all

lemma esize_indexed: "esize (indexed xs) = sum_list (map (\<lambda>x. Suc (vsize x)) xs)"
  by (simp add: indexed_def esize_zip)

lemma esize_object_entries: "esize (object_entries p) \<le> Suc (vsize p)"
proof (cases p)
  case (JStr s)
  have "sum_list (map (\<lambda>x. Suc (vsize x)) (map (\<lambda>c. JStr [c]) s)) = 2 * length s"
    by (induction s) simp_all
  with JStr show ?thesis by (simp add: esize_indexed)
next
  case (JObj es)
  then show ?thesis by (simp add: esize_def)
qed (simp_all add: esize_indexed)

lemma esize_member: "map_of es k = Some p \<Longrightarrow> Suc (vsize p) \<le> esize es"
  by (induction es) (auto split: if_splits)

lemma esize_properties:
  "esize (object_entries (get_own es k)) \<le> esize es"
proof (cases "map_of es k")
  case None
  then show ?thesis by (simp add: get_own_def)
next
  case (Some p)
  have "esize (object_entries p) \<le> Suc (vsize p)" by (rule esize_object_entries)
  also have "\<dots> \<le> esize es" using Some by (rule esize_member)
  finally show ?thesis using Some by (simp add: get_own_def)
qed

text \<open>
  \<^verbatim>\<open>
  function serialize(v) {
    if (v == null) return null;
    if (neo4j.isInt(v)) return v.inSafeRange() ? v.toNumber() : v.toString();
    if (Array.isArray(v)) return v.map(serialize);
    if (typeof v === 'object') {
      if (v.properties) {
        const out = {};
        for (const [k, val] of Object.entries(v.properties)) out[k] = serialize(val);
        return out;
      }
      const out = {};
      for (const [k, val] of Object.entries(v)) out[k] = serialize(val);
      return out;
    }
    return v;
  }
  \<close>
  \<open>serialize_all\<close> is \<open>v.map(serialize)\<close>, \<open>serialize_into\<close> is the \<open>for\<close> loop with the
  object \<open>out\<close> built so far. The only thing that can throw is the method call on a plain
  object that passes \<open>neo4j.isInt\<close>.
\<close>

function serialize :: "jsval \<Rightarrow> js_error + jsval"
  and serialize_all :: "jsval list \<Rightarrow> js_error + jsval list"
  and serialize_into ::
    "(string \<times> jsval) list \<Rightarrow> (string \<times> jsval) list \<Rightarrow> js_error + (string \<times> jsval) list"
where
  "serialize JUndefined = Inr JNull"
| "serialize JNull = Inr JNull"
| "serialize (JInt w) = Inr (if inSafeRange w then JNum (toNumber w) else JStr (toString w))"
| "serialize (JArr xs) = map_sum id JArr (serialize_all xs)"
| "serialize (JObj es) =
     (if isInt (JObj es) then Inl not_a_function
      else if truthy (get_own es ''properties'')
      then map_sum id JObj (serialize_into (object_entries (get_own es ''properties'')) [])
      else map_sum id JObj (serialize_into es []))"
| "serialize (JBool b) = Inr (JBool b)"
| "serialize (JNum n) = Inr (JNum n)"
| "serialize (JStr s) = Inr (JStr s)"
| "serialize_all [] = Inr []"
| "serialize_all (x # xs) =
     (case serialize x of
        Inl e \<Rightarrow> Inl e
      | Inr y \<Rightarrow> (case serialize_all xs of Inl e \<Rightarrow> Inl e | Inr ys \<Rightarrow> Inr (y # ys)))"
| "serialize_into [] out = Inr out"
| "serialize_into ((k, val) # rest) out =
     (case serialize val of
        Inl e \<Rightarrow> Inl e
      | Inr y \<Rightarrow> serialize_into rest (obj_set out k y))"
  by pat_completeness auto
termination
proof (relation "measure (\<lambda>x. case x of
          Inl v \<Rightarrow> vsize v
        | Inr (Inl xs) \<Rightarrow> sum_list (map (\<lambda>x. Suc (vsize x)) xs)
        | Inr (Inr (es, out)) \<Rightarrow> esize es)", goal_cases)
  case (3 es)
  have "esize (object_entries (get_own es ''properties'')) \<le> esize es"
    by (rule esize_properties)
  then show ?case by (simp add: esize_def)
qed (simp_all add: esize_def)

section \<open>The query gateway\<close>

text \<open>
  Modelled from the spec: the driver's records and sessions are not part of the
  repository; the spec gives their contract (\<open>Session.run(query, params) -> RecordSet\<close>,
  \<open>Session.close()\<close>). A record is its fields in column order, each under its key (a
  result has no two columns of one name); \<open>rec.keys\<close> lists the keys and \<open>rec.get(k)\<close>
  gives the field of that name and throws when the record has none. A session is what
  its two calls do: \<open>run\<close> resolves with the records or rejects with an error, \<open>close\<close>
  resolves (\<open>None\<close>) or rejects.
\<close>

type_synonym neo_record = "(string \<times> jsval) list"

definition rec_keys :: "neo_record \<Rightarrow> string list" where
  "rec_keys r = map fst r"

definition no_such_field :: "string \<Rightarrow> js_error" where
  "no_such_field k = JsError (JStr ''N/A'') (JStr (''This record has no field with key '' @ k))"

definition rec_get :: "neo_record \<Rightarrow> string \<Rightarrow> js_error + jsval" where
  "rec_get r k = (case map_of r k of None \<Rightarrow> Inl (no_such_field k) | Some v \<Rightarrow> Inr v)"

record session =
  session_run :: "jsval \<Rightarrow> jsval \<Rightarrow> js_error + neo_record list"
  session_close :: "js_error option"

text \<open>\<open>xs.map(f)\<close> with a callback that may throw: the first exception ends the loop.\<close>

fun map_throwing :: "('a \<Rightarrow> js_error + 'b) \<Rightarrow> 'a list \<Rightarrow> js_error + 'b list" where
  "map_throwing f [] = Inr []"
| "map_throwing f (x # xs) =
     (case f x of
        Inl e \<Rightarrow> Inl e
      | Inr y \<Rightarrow> (case map_throwing f xs of Inl e \<Rightarrow> Inl e | Inr ys \<Rightarrow> Inr (y # ys)))"

text \<open>What the handler does that can be seen from outside, in the order it does it.\<close>

datatype effect =
    SessionOpen string
  | SessionRun jsval jsval
  | ConsoleError js_error
  | Respond nat jsval
  | SessionClose

text \<open>How the promise of the \<open>async\<close> handler settles.\<close>

datatype completion = Resolved | Rejected js_error

definition missing_cypher :: jsval where
  "missing_cypher = JObj [(''error'', JStr ''Missing 'cypher' in body.'')]"

text \<open>\<open>result.records.length ? result.records[0].keys : []\<close>\<close>

definition columns_of :: "neo_record list \<Rightarrow> string list" where
  "columns_of records = (case records of [] \<Rightarrow> [] | r # rest \<Rightarrow> rec_keys r)"

text \<open>\<open>columns.map(k => serialize(rec.get(k)))\<close>\<close>

definition cell :: "neo_record \<Rightarrow> string \<Rightarrow> js_error + jsval" where
  "cell r k = (case rec_get r k of Inl e \<Rightarrow> Inl e | Inr v \<Rightarrow> serialize v)"

definition row_of :: "string list \<Rightarrow> neo_record \<Rightarrow> js_error + jsval list" where
  "row_of columns r = map_throwing (cell r) columns"

text \<open>\<open>result.records.map(rec => ({ row: ... }))\<close>\<close>

definition data_entry :: "jsval list \<Rightarrow> jsval" where
  "data_entry row = JObj [(''row'', JArr row)]"

definition data_of :: "string list \<Rightarrow> neo_record list \<Rightarrow> js_error + jsval list" where
  "data_of columns records = map_throwing (\<lambda>r. map_sum id data_entry (row_of columns r)) records"

text \<open>\<open>{ results: [{ columns, data }], errors: [] }\<close>\<close>

definition success_body :: "string list \<Rightarrow> jsval list \<Rightarrow> jsval" where
  "success_body columns data =
     JObj [(''results'', JArr [JObj [(''columns'', JArr (map JStr columns)), (''data'', JArr data)]]),
           (''errors'', JArr [])]"

text \<open>\<open>{ results: [], errors: [{ code: err.code || 'QueryError', message: err.message }] }\<close>\<close>

definition error_body :: "js_error \<Rightarrow> jsval" where
  "error_body err =
     JObj [(''results'', JArr []),
           (''errors'', JArr [JObj [(''code'', js_or (err_code err) (JStr ''QueryError'')),
                                    (''message'', err_message err)]])]"

text \<open>The \<open>try\<close> block up to the answer: the body it sends, or the error it throws.\<close>

definition attempt :: "session \<Rightarrow> jsval \<Rightarrow> jsval \<Rightarrow> js_error + jsval" where
  "attempt ses cypher params =
     (case session_run ses cypher params of
        Inl err \<Rightarrow> Inl err
      | Inr records \<Rightarrow>
          (let columns = columns_of records in
           case data_of columns records of
             Inl err \<Rightarrow> Inl err
           | Inr data \<Rightarrow> Inr (success_body columns data)))"

text \<open>
  \<^verbatim>\<open>
  app.post('/query', async (req, res) => {
    const cypher = req.body?.cypher;
    const params = req.body?.params || {};
    if (!cypher) return res.status(400).json({ error: "Missing 'cypher' in body." });
    const session = driver.session({ database: NEO4J_DB });
    try {
      const result = await session.run(cypher, params);
      ...
      res.json({ results: [{ columns, data }], errors: [] });
    } catch (err) {
      console.error('Neo4j run error:', err);
      res.status(400).json({ results: [], errors: [{ code: err.code || 'QueryError', message: err.message }] });
    } finally {
      await session.close();
    }
  });
  \<close>
  \<open>db\<close> is \<open>NEO4J_DB\<close>, \<open>ses\<close> the session that \<open>driver.session\<close> returns.
\<close>

definition query_handler :: "string \<Rightarrow> session \<Rightarrow> jsval \<Rightarrow> effect list \<times> completion" where
  "query_handler db ses body =
     (let cypher = opt_member body ''cypher'';
          params = js_or (opt_member body ''params'') (JObj [])
      in if \<not> truthy cypher then ([Respond 400 missing_cypher], Resolved)
         else
           ([SessionOpen db, SessionRun cypher params]
              @ (case attempt ses cypher params of
                   Inr answer \<Rightarrow> [Respond 200 answer]
                 | Inl err \<Rightarrow> [ConsoleError err, Respond 400 (error_body err)])
              @ [SessionClose],
            case session_close ses of None \<Rightarrow> Resolved | Some e \<Rightarrow> Rejected e))"

text \<open>The answers among the effects, and whether the driver was touched.\<close>

fun responses :: "effect list \<Rightarrow> (nat \<times> jsval) list" where
  "responses [] = []"
| "responses (Respond st b # effs) = (st, b) # responses effs"
| "responses (e # effs) = responses effs"

fun contacts_driver :: "effect \<Rightarrow> bool" where
  "contacts_driver (SessionOpen d) = True"
| "contacts_driver (SessionRun c p) = True"
| "contacts_driver SessionClose = True"
| "contacts_driver e = False"

section \<open>The diagnostic probes\<close>

text \<open>
  A probe is a socket with listeners and the response object of the request. The state
  keeps what the claims are about: whether the socket is destroyed, which listeners are
  registered (and whether with \<open>once\<close>), and every answer sent so far.
\<close>

datatype sock_event =
    Connect
  | SecureConnect bool jsval jsval
  | Timeout
  | SockError string

datatype ev_kind = KConnect | KSecureConnect | KTimeout | KError

fun kind_of :: "sock_event \<Rightarrow> ev_kind" where
  "kind_of Connect = KConnect"
| "kind_of (SecureConnect a p c) = KSecureConnect"
| "kind_of Timeout = KTimeout"
| "kind_of (SockError m) = KError"

record probe =
  destroyed :: bool
  listeners :: "(ev_kind \<times> bool) list"
  sent :: "(nat \<times> jsval) list"

definition destroy :: "probe \<Rightarrow> probe" where
  "destroy s = s\<lparr>destroyed := True\<rparr>"

definition respond :: "nat \<Rightarrow> jsval \<Rightarrow> probe \<Rightarrow> probe" where
  "respond st b s = s\<lparr>sent := sent s @ [(st, b)]\<rparr>"

text \<open>
  \<^verbatim>\<open>
  s.once('connect', () => { s.destroy(); res.json({ connect: true }); });
  s.once('timeout', () => { s.destroy(); res.status(504).json({ connect: false, error: 'timeout' }); });
  s.once('error', (e) => { s.destroy(); res.status(502).json({ connect: false, error: e.message }); });
  \<close>
\<close>

definition bolt_listeners :: "(ev_kind \<times> bool) list" where
  "bolt_listeners = [(KConnect, True), (KTimeout, True), (KError, True)]"

fun bolt_handler :: "sock_event \<Rightarrow> probe \<Rightarrow> probe" where
  "bolt_handler Connect s = respond 200 (JObj [(''connect'', JBool True)]) (destroy s)"
| "bolt_handler Timeout s =
     respond 504 (JObj [(''connect'', JBool False), (''error'', JStr ''timeout'')]) (destroy s)"
| "bolt_handler (SockError m) s =
     respond 502 (JObj [(''connect'', JBool False), (''error'', JStr m)]) (destroy s)"
| "bolt_handler (SecureConnect a p c) s = s"

text \<open>
  \<^verbatim>\<open>
  const sock = tls.connect({ ..., timeout: 6000 }, () => {
      const info = { authorized: sock.authorized, alpnProtocol: sock.alpnProtocol || null,
                     cipher: sock.getCipher() };
      sock.destroy();
      res.json({ ok: true, info });
  });
  sock.on('error', e => { res.status(502).json({ ok: false, error: e.message }); });
  sock.on('timeout', () => { sock.destroy(); res.status(504).json({ ok: false, error: 'timeout' }); });
  \<close>
  The callback of \<open>tls.connect\<close> is a \<open>once\<close> listener of \<open>secureConnect\<close>; the event
  carries what the callback reads from the socket (\<open>authorized\<close>, \<open>alpnProtocol\<close>, the
  cipher). The \<open>error\<close> listener does not call \<open>destroy\<close>.
\<close>

definition tls_listeners :: "(ev_kind \<times> bool) list" where
  "tls_listeners = [(KSecureConnect, True), (KError, False), (KTimeout, False)]"

fun tls_handler :: "sock_event \<Rightarrow> probe \<Rightarrow> probe" where
  "tls_handler (SecureConnect a p c) s =
     respond 200
       (JObj [(''ok'', JBool True),
              (''info'', JObj [(''authorized'', JBool a), (''alpnProtocol'', js_or p JNull),
                               (''cipher'', c)])])
       (destroy s)"
| "tls_handler (SockError m) s =
     respond 502 (JObj [(''ok'', JBool False), (''error'', JStr m)]) s"
| "tls_handler Timeout s =
     respond 504 (JObj [(''ok'', JBool False), (''error'', JStr ''timeout'')]) (destroy s)"
| "tls_handler Connect s = s"

text \<open>
  \<open>emitter.emit\<close>: the listener of the event's kind runs, if there is one; a \<open>once\<close>
  listener is taken off before it runs.
\<close>

definition emit :: "(sock_event \<Rightarrow> probe \<Rightarrow> probe) \<Rightarrow> sock_event \<Rightarrow> probe \<Rightarrow> probe" where
  "emit handler ev s =
     (case map_of (listeners s) (kind_of ev) of
        None \<Rightarrow> s
      | Some once \<Rightarrow>
          handler ev
            (if once then s\<lparr>listeners := filter (\<lambda>l. fst l \<noteq> kind_of ev) (listeners s)\<rparr> else s))"

text \<open>
  Modelled from the spec: the sockets of the runtime (\<open>net.Socket\<close>, \<open>tls.TLSSocket\<close>) are
  not part of the repository. The spec's probe protocol has connect, timeout and error
  mutually exclusive after the first has fired, and that is the documented contract of
  these sockets, on which the handlers rely: a destroyed socket emits none of the three,
  and an error is emitted by the socket destroying itself (\<open>destroy(err)\<close>), so the socket
  is already destroyed when an \<open>error\<close> listener runs. A timeout only notifies: there the
  listener has to destroy the socket.
\<close>

definition is_error :: "sock_event \<Rightarrow> bool" where
  "is_error ev = (kind_of ev = KError)"

definition signal :: "(sock_event \<Rightarrow> probe \<Rightarrow> probe) \<Rightarrow> sock_event \<Rightarrow> probe \<Rightarrow> probe" where
  "signal handler ev s =
     (if destroyed s then s
      else emit handler ev (if is_error ev then destroy s else s))"

definition bolt_probe :: "sock_event list \<Rightarrow> probe" where
  "bolt_probe evs =
     fold (signal bolt_handler) evs \<lparr>destroyed = False, listeners = bolt_listeners, sent = []\<rparr>"

definition tls_probe :: "sock_event list \<Rightarrow> probe" where
  "tls_probe evs =
     fold (signal tls_handler) evs \<lparr>destroyed = False, listeners = tls_listeners, sent = []\<rparr>"

section \<open>The origin check\<close>

text \<open>
  \<^verbatim>\<open>
  const ORIGIN_ALLOW_LIST = (process.env.ORIGIN_ALLOW_LIST || 'https://nettedletters.org,https://tool.nettedletters.org')
    .split(',').map(s => s.trim()).filter(Boolean);
  \<close>
  The environment variable is \<open>None\<close> when unset.
\<close>

fun split_comma :: "string \<Rightarrow> string list" where
  "split_comma [] = [[]]"
| "split_comma (c # cs) =
     (if c = CHR '','' then [] # split_comma cs
      else (case split_comma cs of p # ps \<Rightarrow> (c # p) # ps | [] \<Rightarrow> [[c]]))"

definition is_space :: "char \<Rightarrow> bool" where
  "is_space c = (c \<in> set [CHR 0x09, CHR 0x0A, CHR 0x0B, CHR 0x0C, CHR 0x0D, CHR 0x20])"

definition trim :: "string \<Rightarrow> string" where
  "trim s = rev (dropWhile is_space (rev (dropWhile is_space s)))"

definition DEFAULT_ORIGINS :: string where
  "DEFAULT_ORIGINS = ''https://nettedletters.org,https://tool.nettedletters.org''"

definition ORIGIN_ALLOW_LIST :: "string option \<Rightarrow> string list" where
  "ORIGIN_ALLOW_LIST env =
     filter (\<lambda>s. s \<noteq> [])
       (map trim
          (split_comma (case env of None \<Rightarrow> DEFAULT_ORIGINS
                        | Some v \<Rightarrow> if v = [] then DEFAULT_ORIGINS else v)))"

text \<open>
  \<^verbatim>\<open>
  origin: (origin, cb) => {
    if (!origin || ORIGIN_ALLOW_LIST.includes(origin)) return cb(null, true);
    return cb(new Error('Not allowed by CORS: ' + origin), false);
  }
  \<close>
  \<open>origin\<close> is the \<open>Origin\<close> header of the request: \<open>None\<close> when the request has none.
  The result is the pair handed to \<open>cb\<close>.
\<close>

definition origin_check :: "string list \<Rightarrow> string option \<Rightarrow> js_error option \<times> bool" where
  "origin_check allow origin =
     (case origin of
        None \<Rightarrow> (None, True)
      | Some s \<Rightarrow>
          if s = [] \<or> s \<in> set allow then (None, True)
          else (Some (JsError JUndefined (JStr (''Not allowed by CORS: '' @ s))), False))"

text \<open>
  Modelled from the spec: the \<open>cors\<close> middleware is not part of the repository. A request
  whose origin callback reports an error is rejected before reaching any handler (the
  middleware passes the error on instead of calling the next handler); any other request
  goes on to its handler.
\<close>

datatype 'a routed = Refused js_error | Reached 'a

definition cors_gate :: "string list \<Rightarrow> string option \<Rightarrow> 'a \<Rightarrow> 'a routed" where
  "cors_gate allow origin handler =
     (case origin_check allow origin of
        (Some err, ok) \<Rightarrow> Refused err
      | (None, ok) \<Rightarrow> Reached handler)"

section \<open>Notions the properties are stated with\<close>

text \<open>
  A JSON-safe value, in the spec's words: null, a boolean, a string, a number JSON can
  hold, an array of JSON-safe values, or a string-keyed mapping of JSON-safe values.
\<close>

fun json_safe :: "jsval \<Rightarrow> bool" where
  "json_safe JNull = True"
| "json_safe (JBool b) = True"
| "json_safe (JStr s) = True"
| "json_safe (JNum n) = (case n of Fin q \<Rightarrow> True | _ \<Rightarrow> False)"
| "json_safe (JArr xs) = (\<forall>x \<in> set xs. json_safe x)"
| "json_safe (JObj es) = (\<forall>e \<in> set es. json_safe (snd e))"
| "json_safe JUndefined = False"
| "json_safe (JInt w) = False"

text \<open>
  The entries of an object as the driver builds it: no key twice (an object cannot hold
  one), and none named \<open>__proto__\<close> (the driver fills its maps by assignment).
\<close>

definition plain_keys :: "(string \<times> jsval) list \<Rightarrow> bool" where
  "plain_keys es = (distinct (map fst es) \<and> ''__proto__'' \<notin> set (map fst es))"

text \<open>
  A value in which no mapping, at any depth, looks like an entity (a truthy
  \<open>properties\<close> entry) or like an \<open>Integer\<close> (the \<open>__isInteger__\<close> flag), and every
  mapping has plain keys.
\<close>

fun plain_data :: "jsval \<Rightarrow> bool" where
  "plain_data (JArr xs) = (\<forall>x \<in> set xs. plain_data x)"
| "plain_data (JObj es) =
     (\<not> truthy (get_own es ''properties'') \<and> \<not> isInt (JObj es) \<and> plain_keys es
      \<and> (\<forall>e \<in> set es. plain_data (snd e)))"
| "plain_data v = True"

text \<open>One step of the \<open>for\<close> loop on its own: the entry \<open>[k, serialize(val)]\<close>.\<close>

definition entry :: "string \<times> jsval \<Rightarrow> js_error + string \<times> jsval" where
  "entry e = map_sum id (Pair (fst e)) (serialize (snd e))"

text \<open>A session whose \<open>run\<close> settles as \<open>r\<close> whatever the query, and whose \<open>close\<close> as \<open>c\<close>.\<close>

definition settling :: "js_error + neo_record list \<Rightarrow> js_error option \<Rightarrow> session" where
  "settling r c = \<lparr>session_run = (\<lambda>cypher params. r), session_close = c\<rparr>"

section \<open>The serializer on wide integers\<close>

declare nat_to_string.simps [simp del]

lemma inSafeRange_iff:
  "inSafeRange w \<longleftrightarrow> - 9007199254740991 \<le> sint w \<and> sint w \<le> 9007199254740991"
  by (simp add: inSafeRange_def MIN_SAFE_VALUE_def MAX_SAFE_VALUE_def word_sle_eq)

lemma double_of_int_exact: "\<bar>x\<bar> < 2 ^ 53 \<Longrightarrow> double_of_int x = x"
  by (simp add: double_of_int_def)

lemma toNumber_safe:
  assumes "inSafeRange w"
  shows "toNumber w = Fin (of_int (sint w))"
proof -
  have "- 9007199254740991 \<le> sint w \<and> sint w \<le> 9007199254740991"
    using assms by (simp add: inSafeRange_iff)
  then have "\<bar>sint w\<bar> < 9007199254740992"
    by linarith
  then have "\<bar>sint w\<bar> < 2 ^ 53"
    by simp
  then have "double_of_int (sint w) = sint w"
    by (rule double_of_int_exact)
  then show ?thesis
    by (simp only: toNumber_def)
qed

text \<open>Outside the safe range the conversion to a number does lose digits.\<close>

lemma toNumber_lossy: "toNumber 9007199254740993 = Fin 9007199254740992"
  by code_simp

lemma digit_value_digit_char: "d < 10 \<Longrightarrow> digit_value (digit_char d) = d"
proof -
  assume "d < 10"
  then have "d \<in> {0, 1, 2, 3, 4, 5, 6, 7, 8, 9}" by auto
  then show ?thesis
    by (auto simp: digit_value_def digit_char_def)
qed

lemma digit_char_not_minus: "d < 10 \<Longrightarrow> digit_char d \<noteq> CHR ''-''"
proof -
  assume "d < 10"
  then have "d \<in> {0, 1, 2, 3, 4, 5, 6, 7, 8, 9}" by auto
  then show ?thesis
    by (auto simp: digit_char_def)
qed

lemma string_to_nat_snoc: "string_to_nat (s @ [c]) = 10 * string_to_nat s + digit_value c"
  by (simp add: string_to_nat_def)

lemma string_to_nat_inverse: "string_to_nat (nat_to_string n) = n"
proof (induction n rule: nat_to_string.induct)
  case (1 n)
  show ?case
  proof (cases "n < 10")
    case True
    then show ?thesis
      by (simp add: nat_to_string.simps [of n] string_to_nat_def digit_value_digit_char)
  next
    case False
    with 1 have "string_to_nat (nat_to_string (n div 10)) = n div 10" by simp
    with False show ?thesis
      by (simp add: nat_to_string.simps [of n] string_to_nat_snoc digit_value_digit_char)
  qed
qed

lemma nat_to_string_hd: "\<exists>d r. d < 10 \<and> nat_to_string n = digit_char d # r"
proof (induction n rule: nat_to_string.induct)
  case (1 n)
  show ?case
  proof (cases "n < 10")
    case True
    then show ?thesis by (auto simp: nat_to_string.simps [of n])
  next
    case False
    with 1 obtain d r where "d < 10" "nat_to_string (n div 10) = digit_char d # r" by auto
    with False show ?thesis by (auto simp: nat_to_string.simps [of n])
  qed
qed

lemma string_to_int_inverse: "string_to_int (int_to_string i) = i"
proof (cases "i < 0")
  case True
  then show ?thesis
    by (simp add: string_to_int_def int_to_string_def string_to_nat_inverse)
next
  case False
  obtain d r where d: "d < 10" "nat_to_string (nat i) = digit_char d # r"
    using nat_to_string_hd by blast
  have "string_to_nat (digit_char d # r) = nat i"
    using string_to_nat_inverse [of "nat i"] d by simp
  with False d show ?thesis
    by (simp add: string_to_int_def int_to_string_def digit_char_not_minus)
qed

text \<open>
  C1. For every wide integer \<open>w\<close>: when its value lies in the safe-integer range
  \<open>-(2^53 - 1) .. 2^53 - 1\<close>, \<open>serialize\<close> returns the number equal to that value; otherwise
  it returns the decimal string of the value, and reading that string back gives the value
  again, so nothing is lost.
\<close>

theorem serialize_wide_integer:
  "serialize (JInt w) =
     Inr (if - 9007199254740991 \<le> sint w \<and> sint w \<le> 9007199254740991
          then JNum (Fin (of_int (sint w)))
          else JStr (int_to_string (sint w)))
   \<and> string_to_int (int_to_string (sint w)) = sint w"
  using toNumber_safe [of w]
  by (simp add: inSafeRange_iff [symmetric] toString_def string_to_int_inverse)

theorem serialize_wide_integer_witness:
  "serialize (JInt 42) = Inr (JNum (Fin 42))
   \<and> serialize (JInt 9007199254740993) = Inr (JStr ''9007199254740993'')
   \<and> serialize (JInt (- 9007199254740992)) = Inr (JStr ''-9007199254740992'')"
  using serialize_wide_integer [of 42] serialize_wide_integer [of 9007199254740993]
    serialize_wide_integer [of "- 9007199254740992"]
  by (simp add: int_to_string_def nat_to_string.simps digit_char_def)

section \<open>The serializer on arrays and mappings\<close>

lemma serialize_all_eq: "serialize_all xs = map_throwing serialize xs"
  by (induction xs) (simp_all cong: sum.case_cong)

lemma map_throwing_all:
  "(\<And>x. x \<in> set xs \<Longrightarrow> f x = Inr (g x)) \<Longrightarrow> map_throwing f xs = Inr (map g xs)"
  by (induction xs) simp_all

lemma map_throwing_Inr:
  "map_throwing f xs = Inr ys \<Longrightarrow>
     length ys = length xs \<and> (\<forall>i < length xs. f (xs ! i) = Inr (ys ! i))"
proof (induction xs arbitrary: ys)
  case Nil
  then show ?case by simp
next
  case (Cons x xs)
  then obtain y ys' where y: "f x = Inr y" "map_throwing f xs = Inr ys'" "ys = y # ys'"
    by (auto split: sum.splits)
  with Cons.IH [of ys'] show ?case
    by (auto simp: nth_Cons split: nat.splits)
qed

lemma map_throwing_map_sum:
  "map_throwing (\<lambda>x. map_sum id g (f x)) xs = map_sum id (map g) (map_throwing f xs)"
proof (induction xs)
  case Nil
  then show ?case by simp
next
  case (Cons x xs)
  then show ?case
    by (cases "f x"; cases "map_throwing f xs") simp_all
qed

lemma obj_set_fresh:
  "k \<noteq> ''__proto__'' \<Longrightarrow> k \<notin> set (map fst out) \<Longrightarrow> obj_set out k y = out @ [(k, y)]"
  by (induction out) auto

text \<open>
  On plain keys the loop is a map: each assignment adds a new entry behind the ones before
  it, and the first value that throws ends the loop.
\<close>

lemma serialize_into_plain:
  "distinct (map fst out @ map fst es) \<Longrightarrow> ''__proto__'' \<notin> set (map fst es) \<Longrightarrow>
     serialize_into es out = map_sum id (\<lambda>ys. out @ ys) (map_throwing entry es)"
proof (induction es arbitrary: out)
  case Nil
  then show ?case by simp
next
  case (Cons e es)
  obtain k v where e: "e = (k, v)" by (cases e)
  show ?case
  proof (cases "serialize v")
    case (Inl err)
    with e show ?thesis by (simp add: entry_def)
  next
    case (Inr y)
    have fresh: "obj_set out k y = out @ [(k, y)]"
      using Cons.prems e by (intro obj_set_fresh) auto
    have "serialize_into es (out @ [(k, y)]) =
            map_sum id (\<lambda>ys. (out @ [(k, y)]) @ ys) (map_throwing entry es)"
      using Cons.prems e by (intro Cons.IH) auto
    moreover have "entry e = Inr (k, y)"
      using Inr e by (simp add: entry_def)
    ultimately show ?thesis
      using Inr e fresh by (cases "map_throwing entry es") simp_all
  qed
qed

lemma serialize_into_empty:
  "plain_keys es \<Longrightarrow> serialize_into es [] = map_throwing entry es"
  using serialize_into_plain [of "[]" es]
  by (cases "map_throwing entry es") (simp_all add: plain_keys_def)

text \<open>What falls outside plain data: a flagged mapping makes \<open>serialize\<close> throw.\<close>

lemma serialize_flagged_mapping:
  "serialize (JObj [(''__isInteger__'', JBool True)]) = Inl not_a_function"
  by (simp add: get_own_def)

text \<open>
  C4. For every entity-like object, that is an object (not an \<open>Integer\<close>) whose
  \<open>properties\<close> field is a mapping \<open>ps\<close> with plain keys, \<open>serialize\<close> returns exactly the
  mapping that has, under each key of \<open>ps\<close> and in the same order, the serialized value of
  that key, and throws where one of these values throws. Nothing else of the object
  (identity, labels, type, any other field) is in the result.
\<close>

theorem serialize_entity:
  assumes "get_own es ''properties'' = JObj ps" and "\<not> isInt (JObj es)" and "plain_keys ps"
  shows "serialize (JObj es) =
           map_sum id JObj (map_throwing (\<lambda>e. map_sum id (Pair (fst e)) (serialize (snd e))) ps)"
proof -
  have "map_throwing entry ps = map_throwing (\<lambda>e. map_sum id (Pair (fst e)) (serialize (snd e))) ps"
    by (simp add: entry_def [abs_def])
  with assms show ?thesis
    by (simp add: serialize_into_empty del: isInt.simps)
qed

theorem serialize_entity_witness:
  "serialize (JObj [(''identity'', JInt 7), (''labels'', JArr [JStr ''Person'']),
                    (''properties'', JObj [(''name'', JStr ''Ann''), (''age'', JInt 33)]),
                    (''elementId'', JStr ''4:abc:7'')])
     = Inr (JObj [(''name'', JStr ''Ann''), (''age'', JNum (Fin 33))])"
proof -
  let ?ps = "[(''name'', JStr ''Ann''), (''age'', JInt 33)]"
  let ?es = "[(''identity'', JInt 7), (''labels'', JArr [JStr ''Person'']),
              (''properties'', JObj ?ps), (''elementId'', JStr ''4:abc:7'')]"
  have p: "get_own ?es ''properties'' = JObj ?ps" by (simp add: get_own_def)
  have i: "\<not> isInt (JObj ?es)" by (simp add: get_own_def)
  have k: "plain_keys ?ps" by (simp add: plain_keys_def)
  have "serialize (JObj ?es) =
          map_sum id JObj (map_throwing (\<lambda>e. map_sum id (Pair (fst e)) (serialize (snd e))) ?ps)"
    using p i k by (rule serialize_entity)
  also have "\<dots> = Inr (JObj [(''name'', JStr ''Ann''), (''age'', JNum (Fin 33))])"
    by (simp add: inSafeRange_iff toNumber_def double_of_int_def)
  finally show ?thesis .
qed

lemma serialize_plain_data: "json_safe v \<Longrightarrow> plain_data v \<Longrightarrow> serialize v = Inr v"
proof (induction v)
  case (JArr xs)
  then have "map_throwing serialize xs = Inr (map (\<lambda>x. x) xs)"
    by (intro map_throwing_all) auto
  then show ?case by (simp add: serialize_all_eq)
next
  case (JObj es)
  have "entry e = Inr e" if "e \<in> set es" for e
  proof -
    obtain k v where e: "e = (k, v)" by (cases e)
    have "json_safe v" "plain_data v"
      using JObj.prems that e by fastforce+
    then have "serialize v = Inr v"
      using JObj.IH [of e v] that e by simp
    then have "serialize (snd e) = Inr (snd e)"
      using e by simp
    then show ?thesis by (simp add: entry_def)
  qed
  then have "map_throwing entry es = Inr (map (\<lambda>e. e) es)"
    by (intro map_throwing_all) auto
  with JObj.prems show ?case
    by (simp add: serialize_into_empty del: isInt.simps)
qed simp_all

text \<open>
  C3, as amended. For every JSON-safe value that is plain data (no mapping in it, at any
  depth, has a truthy \<open>properties\<close> entry or the \<open>__isInteger__\<close> flag, and the keys of its
  mappings are plain), \<open>serialize\<close> returns the value unchanged, and so serializing the
  result again changes nothing.
\<close>

theorem serialize_json_safe_fixpoint:
  assumes "json_safe v" and "plain_data v"
  shows "serialize v = Inr v
         \<and> (case serialize v of Inl e \<Rightarrow> Inl e | Inr y \<Rightarrow> serialize y) = serialize v"
  using serialize_plain_data [OF assms] by simp

theorem serialize_json_safe_fixpoint_witness:
  "serialize (JObj [(''name'', JStr ''Ann''), (''tags'', JArr [JNum (Fin 1), JNull, JBool True]),
                    (''properties'', JNull), (''nested'', JObj [(''k'', JStr [])])])
     = Inr (JObj [(''name'', JStr ''Ann''), (''tags'', JArr [JNum (Fin 1), JNull, JBool True]),
                  (''properties'', JNull), (''nested'', JObj [(''k'', JStr [])])])"
proof -
  let ?v = "JObj [(''name'', JStr ''Ann''), (''tags'', JArr [JNum (Fin 1), JNull, JBool True]),
                  (''properties'', JNull), (''nested'', JObj [(''k'', JStr [])])]"
  have s: "json_safe ?v" by simp
  have t: "plain_data ?v" by (simp add: get_own_def plain_keys_def)
  show ?thesis
    using serialize_json_safe_fixpoint [OF s t] by simp
qed

text \<open>
  C3, as stated, fails on a JSON-safe mapping that has a \<open>properties\<close> entry: the value
  \<open>{properties: {properties: {a: 1}}}\<close> is not returned unchanged, and serializing the
  result once more changes it again.
\<close>

theorem serialize_idempotence_counterexample:
  "json_safe (JObj [(''properties'', JObj [(''properties'', JObj [(''a'', JNum (Fin 1))])])])
   \<and> serialize (JObj [(''properties'', JObj [(''properties'', JObj [(''a'', JNum (Fin 1))])])])
       = Inr (JObj [(''properties'', JObj [(''a'', JNum (Fin 1))])])
   \<and> serialize (JObj [(''properties'', JObj [(''a'', JNum (Fin 1))])])
       = Inr (JObj [(''a'', JNum (Fin 1))])"
  by (simp add: get_own_def)

section \<open>The query gateway\<close>

lemma query_handler_falsy:
  "\<not> truthy (opt_member body ''cypher'') \<Longrightarrow>
     query_handler db ses body = ([Respond 400 missing_cypher], Resolved)"
  by (simp add: query_handler_def)

lemma query_handler_truthy:
  "truthy (opt_member body ''cypher'') \<Longrightarrow>
     query_handler db ses body =
       ([SessionOpen db,
         SessionRun (opt_member body ''cypher'') (js_or (opt_member body ''params'') (JObj []))]
          @ (case attempt ses (opt_member body ''cypher'') (js_or (opt_member body ''params'') (JObj [])) of
               Inr answer \<Rightarrow> [Respond 200 answer]
             | Inl err \<Rightarrow> [ConsoleError err, Respond 400 (error_body err)])
          @ [SessionClose],
        case session_close ses of None \<Rightarrow> Resolved | Some e \<Rightarrow> Rejected e)"
  by (simp add: query_handler_def Let_def)

lemma cell_Inr:
  "cell r k = Inr y \<Longrightarrow> \<exists>v. map_of r k = Some v \<and> serialize v = Inr y"
  by (auto simp: cell_def rec_get_def split: option.splits sum.splits)

lemma answered_200:
  assumes "Respond 200 answer \<in> set (fst (query_handler db ses body))"
  shows "attempt ses (opt_member body ''cypher'') (js_or (opt_member body ''params'') (JObj [])) = Inr answer"
proof -
  have t: "truthy (opt_member body ''cypher'')"
    using assms by (cases "truthy (opt_member body ''cypher'')") (simp_all add: query_handler_falsy)
  show ?thesis
    using assms t by (auto simp: query_handler_truthy split: sum.splits)
qed

text \<open>
  C5. For every \<open>POST /query\<close> that is answered with success (status 200) and whose
  execution returned the records \<open>records\<close>: the answer is
  \<open>{ results: [{ columns, data }], errors: [] }\<close>, where \<open>columns\<close> is the key sequence of
  the first record (empty when there is none), \<open>data\<close> has one entry \<open>{ row }\<close> per record,
  and each row has one cell per column, the serialized value the record holds under that
  column.
\<close>

theorem query_success_shape:
  assumes "Respond 200 answer \<in> set (fst (query_handler db ses body))"
    and "session_run ses (opt_member body ''cypher'') (js_or (opt_member body ''params'') (JObj []))
           = Inr records"
  shows "\<exists>rows.
           answer =
             JObj [(''results'',
                    JArr [JObj [(''columns'', JArr (map JStr (columns_of records))),
                                (''data'', JArr (map (\<lambda>row. JObj [(''row'', JArr row)]) rows))]]),
                   (''errors'', JArr [])]
           \<and> columns_of records = (case records of [] \<Rightarrow> [] | r # rest \<Rightarrow> map fst r)
           \<and> length rows = length records
           \<and> (\<forall>i < length records.
                 length (rows ! i) = length (columns_of records)
                 \<and> (\<forall>j < length (columns_of records).
                       \<exists>v. map_of (records ! i) (columns_of records ! j) = Some v
                           \<and> serialize v = Inr (rows ! i ! j)))"
proof -
  let ?cols = "columns_of records"
  have "attempt ses (opt_member body ''cypher'') (js_or (opt_member body ''params'') (JObj [])) = Inr answer"
    using assms(1) by (rule answered_200)
  then obtain data where data: "data_of ?cols records = Inr data" "answer = success_body ?cols data"
    using assms(2) by (auto simp: attempt_def Let_def split: sum.splits)
  have "data_of ?cols records = map_sum id (map data_entry) (map_throwing (row_of ?cols) records)"
    unfolding data_of_def by (rule map_throwing_map_sum)
  with data(1) obtain rows where rows: "map_throwing (row_of ?cols) records = Inr rows"
      "data = map data_entry rows"
    by (cases "map_throwing (row_of ?cols) records") auto
  have len: "length rows = length records"
    and row: "\<forall>i < length records. row_of ?cols (records ! i) = Inr (rows ! i)"
    using map_throwing_Inr [OF rows(1)] by simp_all
  have cells: "length (rows ! i) = length ?cols
      \<and> (\<forall>j < length ?cols. \<exists>v. map_of (records ! i) (?cols ! j) = Some v
             \<and> serialize v = Inr (rows ! i ! j))"
    if "i < length records" for i
  proof -
    have "map_throwing (cell (records ! i)) ?cols = Inr (rows ! i)"
      using row that by (simp add: row_of_def)
    from map_throwing_Inr [OF this] show ?thesis
      by (auto dest: cell_Inr)
  qed
  have "answer =
          JObj [(''results'',
                 JArr [JObj [(''columns'', JArr (map JStr ?cols)),
                             (''data'', JArr (map (\<lambda>row. JObj [(''row'', JArr row)]) rows))]]),
                (''errors'', JArr [])]"
    using data(2) rows(2) by (simp add: success_body_def data_entry_def [abs_def])
  moreover have "?cols = (case records of [] \<Rightarrow> [] | r # rest \<Rightarrow> map fst r)"
    by (simp add: columns_of_def rec_keys_def split: list.splits)
  ultimately show ?thesis
    using len cells by blast
qed

theorem query_success_shape_witness:
  "Respond 200 (success_body [''a'', ''b''] [data_entry [JNum (Fin 1), JNull]])
     \<in> set (fst (query_handler ''neo4j'' (settling (Inr [[(''a'', JInt 1), (''b'', JUndefined)]]) None)
                  (JObj [(''cypher'', JStr ''RETURN 1 AS a, null AS b'')])))
   \<and> (\<exists>rows.
         success_body [''a'', ''b''] [data_entry [JNum (Fin 1), JNull]] =
           JObj [(''results'',
                  JArr [JObj [(''columns'', JArr [JStr ''a'', JStr ''b'']),
                              (''data'', JArr (map (\<lambda>row. JObj [(''row'', JArr row)]) rows))]]),
                 (''errors'', JArr [])]
         \<and> length rows = 1 \<and> length (rows ! 0) = 2)"
proof -
  let ?records = "[[(''a'', JInt 1), (''b'', JUndefined)]]"
  let ?ses = "settling (Inr ?records) None"
  let ?body = "JObj [(''cypher'', JStr ''RETURN 1 AS a, null AS b'')]"
  let ?answer = "success_body [''a'', ''b''] [data_entry [JNum (Fin 1), JNull]]"
  have ran: "session_run ?ses (opt_member ?body ''cypher'') (js_or (opt_member ?body ''params'') (JObj []))
               = Inr ?records"
    by (simp add: settling_def)
  have "attempt ?ses (JStr ''RETURN 1 AS a, null AS b'') (js_or JUndefined (JObj [])) = Inr ?answer"
    by (simp add: attempt_def settling_def columns_of_def rec_keys_def data_of_def row_of_def cell_def
        rec_get_def inSafeRange_iff toNumber_def double_of_int_def)
  then have sent: "Respond 200 ?answer \<in> set (fst (query_handler ''neo4j'' ?ses ?body))"
    by (simp add: query_handler_def Let_def get_own_def)
  from query_success_shape [OF sent ran] obtain rows where
    "?answer =
       JObj [(''results'',
              JArr [JObj [(''columns'', JArr (map JStr (columns_of ?records))),
                          (''data'', JArr (map (\<lambda>row. JObj [(''row'', JArr row)]) rows))]]),
             (''errors'', JArr [])]"
    "length rows = length ?records"
    "\<forall>i < length ?records. length (rows ! i) = length (columns_of ?records)"
    by blast
  then have "?answer =
       JObj [(''results'',
              JArr [JObj [(''columns'', JArr [JStr ''a'', JStr ''b'']),
                          (''data'', JArr (map (\<lambda>row. JObj [(''row'', JArr row)]) rows))]]),
             (''errors'', JArr [])]
     \<and> length rows = 1 \<and> length (rows ! 0) = 2"
    by (simp add: columns_of_def rec_keys_def)
  with sent show ?thesis by blast
qed

text \<open>
  C6. For every \<open>POST /query\<close> whose body lacks the \<open>cypher\<close> field (a mapping without
  that key, or no mapping at all), the handler answers with status 400 and the error body
  \<open>{ error: "Missing 'cypher' in body." }\<close> and does nothing else: no session is opened,
  no query is run, whatever the driver would do.
\<close>

theorem query_without_cypher:
  assumes "\<And>es. body = JObj es \<Longrightarrow> ''cypher'' \<notin> fst ` set es"
  shows "query_handler db ses body = ([Respond 400 missing_cypher], Resolved)
         \<and> \<not> list_ex contacts_driver (fst (query_handler db ses body))"
proof -
  have "opt_member body ''cypher'' = JUndefined"
  proof (cases body)
    case (JObj es)
    with assms have "map_of es ''cypher'' = None"
      by (simp add: map_of_eq_None_iff)
    with JObj show ?thesis by (simp add: get_own_def)
  qed simp_all
  then have "query_handler db ses body = ([Respond 400 missing_cypher], Resolved)"
    by (simp add: query_handler_falsy)
  then show ?thesis by simp
qed

theorem query_without_cypher_witness:
  "query_handler ''neo4j'' (settling (Inr []) None) (JObj []) =
     ([Respond 400 (JObj [(''error'', JStr ''Missing 'cypher' in body.'')])], Resolved)
   \<and> query_handler ''neo4j'' (settling (Inr []) None) (JObj [(''params'', JObj [])]) =
     ([Respond 400 (JObj [(''error'', JStr ''Missing 'cypher' in body.'')])], Resolved)"
  using query_without_cypher [of "JObj []" "''neo4j''" "settling (Inr []) None"]
    query_without_cypher [of "JObj [(''params'', JObj [])]" "''neo4j''" "settling (Inr []) None"]
  by (simp add: missing_cypher_def)

text \<open>
  C10. For every \<open>POST /query\<close> whose body has a \<open>cypher\<close> field with a falsy value (the
  empty string, \<open>null\<close>, \<open>false\<close>, zero), the handler answers with status 400 and the same
  error body, without opening a session or running a query: exactly what it does for the
  same body with the field taken out.
\<close>

theorem query_falsy_cypher:
  assumes "body = JObj es" and "map_of es ''cypher'' = Some c" and "\<not> truthy c"
  shows "query_handler db ses body = ([Respond 400 missing_cypher], Resolved)
         \<and> \<not> list_ex contacts_driver (fst (query_handler db ses body))
         \<and> query_handler db ses body =
             query_handler db ses (JObj (filter (\<lambda>e. fst e \<noteq> ''cypher'') es))"
proof -
  have "map_of (filter (\<lambda>e. fst e \<noteq> ''cypher'') es) ''cypher'' = None"
    by (auto simp: map_of_eq_None_iff)
  then have "\<not> truthy (opt_member (JObj (filter (\<lambda>e. fst e \<noteq> ''cypher'') es)) ''cypher'')"
    by (simp add: get_own_def)
  moreover have "\<not> truthy (opt_member body ''cypher'')"
    using assms by (simp add: get_own_def)
  ultimately show ?thesis
    by (simp add: query_handler_falsy)
qed

theorem query_falsy_cypher_witness:
  "query_handler ''neo4j'' (settling (Inr []) None) (JObj [(''cypher'', JStr [])]) =
     ([Respond 400 missing_cypher], Resolved)
   \<and> query_handler ''neo4j'' (settling (Inr []) None) (JObj [(''cypher'', JNull)]) =
     ([Respond 400 missing_cypher], Resolved)
   \<and> query_handler ''neo4j'' (settling (Inr []) None) (JObj [(''cypher'', JBool False)]) =
     ([Respond 400 missing_cypher], Resolved)
   \<and> query_handler ''neo4j'' (settling (Inr []) None) (JObj [(''cypher'', JNum (Fin 0))]) =
     ([Respond 400 missing_cypher], Resolved)"
  using query_falsy_cypher [of "JObj [(''cypher'', JStr [])]" "[(''cypher'', JStr [])]" "JStr []"
      "''neo4j''" "settling (Inr []) None"]
    query_falsy_cypher [of "JObj [(''cypher'', JNull)]" "[(''cypher'', JNull)]" JNull
      "''neo4j''" "settling (Inr []) None"]
    query_falsy_cypher [of "JObj [(''cypher'', JBool False)]" "[(''cypher'', JBool False)]" "JBool False"
      "''neo4j''" "settling (Inr []) None"]
    query_falsy_cypher [of "JObj [(''cypher'', JNum (Fin 0))]" "[(''cypher'', JNum (Fin 0))]" "JNum (Fin 0)"
      "''neo4j''" "settling (Inr []) None"]
  by simp

text \<open>
  C7, as amended. For every \<open>POST /query\<close> whose execution raises an error (the run
  rejects, or reading or serializing a record throws), the error is caught: it is logged,
  the answer is \<open>{ results: [], errors: [{ code, message }] }\<close> with status 400, where
  \<open>code\<close> is the error's code when that is truthy and \<open>"QueryError"\<close> otherwise, and
  \<open>message\<close> is the error's message; the session is closed, and the handler's promise
  settles as that close does, so the error itself never escapes the handler.
\<close>

theorem query_error_envelope:
  assumes "truthy (opt_member body ''cypher'')"
    and "attempt ses (opt_member body ''cypher'') (js_or (opt_member body ''params'') (JObj [])) = Inl err"
  shows "fst (query_handler db ses body) =
           [SessionOpen db,
            SessionRun (opt_member body ''cypher'') (js_or (opt_member body ''params'') (JObj [])),
            ConsoleError err,
            Respond 400
              (JObj [(''results'', JArr []),
                     (''errors'',
                      JArr [JObj [(''code'', if truthy (err_code err) then err_code err
                                            else JStr ''QueryError''),
                                  (''message'', err_message err)]])]),
            SessionClose]
         \<and> snd (query_handler db ses body) =
             (case session_close ses of None \<Rightarrow> Resolved | Some e \<Rightarrow> Rejected e)"
  using assms by (simp add: query_handler_truthy error_body_def js_or_def)

theorem query_error_envelope_witness:
  "query_handler ''neo4j''
     (settling (Inl (JsError (JStr ''Neo.ClientError.Statement.SyntaxError'') (JStr ''Invalid input''))) None)
     (JObj [(''cypher'', JStr ''RETRUN 1'')]) =
   ([SessionOpen ''neo4j'', SessionRun (JStr ''RETRUN 1'') (JObj []),
     ConsoleError (JsError (JStr ''Neo.ClientError.Statement.SyntaxError'') (JStr ''Invalid input'')),
     Respond 400
       (JObj [(''results'', JArr []),
              (''errors'',
               JArr [JObj [(''code'', JStr ''Neo.ClientError.Statement.SyntaxError''),
                           (''message'', JStr ''Invalid input'')]])]),
     SessionClose],
    Resolved)"
proof -
  let ?err = "JsError (JStr ''Neo.ClientError.Statement.SyntaxError'') (JStr ''Invalid input'')"
  let ?body = "JObj [(''cypher'', JStr ''RETRUN 1'')]"
  have c: "truthy (opt_member ?body ''cypher'')"
    by (simp add: get_own_def)
  have a: "attempt (settling (Inl ?err) None) (opt_member ?body ''cypher'')
             (js_or (opt_member ?body ''params'') (JObj [])) = Inl ?err"
    by (simp add: attempt_def settling_def)
  show ?thesis
    using query_error_envelope [OF c a, of "''neo4j''"]
    by (simp add: prod_eq_iff get_own_def js_or_def settling_def)
qed

text \<open>
  C7, as stated, fails for an error whose code is present but falsy: the error
  \<open>{ code: "", message: "boom" }\<close> has the code \<open>""\<close>, and the answer carries
  \<open>"QueryError"\<close>.
\<close>

theorem error_code_counterexample:
  "err_code (JsError (JStr []) (JStr ''boom'')) = JStr []
   \<and> responses (fst (query_handler ''neo4j'' (settling (Inl (JsError (JStr []) (JStr ''boom''))) None)
         (JObj [(''cypher'', JStr ''RETURN 1'')]))) =
       [(400, JObj [(''results'', JArr []),
                    (''errors'', JArr [JObj [(''code'', JStr ''QueryError''),
                                             (''message'', JStr ''boom'')]])])]"
  by (simp add: query_handler_def Let_def get_own_def attempt_def settling_def error_body_def js_or_def)

text \<open>
  C8. For every \<open>POST /query\<close> in which a session was opened, \<open>session.close()\<close> is
  called, once, as the last thing the handler does, after a successful execution and after
  a caught error alike.
\<close>

theorem session_always_closed:
  assumes "SessionOpen d \<in> set (fst (query_handler db ses body))"
  shows "last (fst (query_handler db ses body)) = SessionClose
         \<and> length (filter (\<lambda>e. e = SessionClose) (fst (query_handler db ses body))) = 1
         \<and> (\<exists>reply. fst (query_handler db ses body) = SessionOpen db # reply @ [SessionClose])"
proof (cases "truthy (opt_member body ''cypher'')")
  case True
  then show ?thesis
    by (simp add: query_handler_truthy split: sum.splits)
next
  case False
  with assms show ?thesis
    by (simp add: query_handler_falsy)
qed

theorem session_always_closed_witness:
  "last (fst (query_handler ''neo4j'' (settling (Inr []) None) (JObj [(''cypher'', JStr ''RETURN 1'')])))
     = SessionClose
   \<and> last (fst (query_handler ''neo4j'' (settling (Inl (JsError JUndefined (JStr ''boom''))) None)
         (JObj [(''cypher'', JStr ''RETURN 1'')]))) = SessionClose"
proof -
  have ok: "SessionOpen ''neo4j'' \<in> set (fst (query_handler ''neo4j'' (settling (Inr []) None)
      (JObj [(''cypher'', JStr ''RETURN 1'')])))"
    by (simp add: query_handler_def Let_def get_own_def)
  have err: "SessionOpen ''neo4j'' \<in> set (fst (query_handler ''neo4j''
      (settling (Inl (JsError JUndefined (JStr ''boom''))) None) (JObj [(''cypher'', JStr ''RETURN 1'')])))"
    by (simp add: query_handler_def Let_def get_own_def)
  show ?thesis
    using session_always_closed [OF ok] session_always_closed [OF err] by simp
qed

section \<open>The diagnostic probes\<close>

lemma fold_signal_destroyed: "destroyed s \<Longrightarrow> fold (signal h) evs s = s"
  by (induction evs) (simp_all add: signal_def)

text \<open>
  Which listener tears the socket down itself: all of them except the \<open>error\<close> listener
  of the TLS probe, which finds the socket destroyed by the runtime.
\<close>

lemma listeners_destroy:
  "kind_of ev \<noteq> KSecureConnect \<Longrightarrow> destroyed (bolt_handler ev s)"
  "kind_of ev \<noteq> KConnect \<Longrightarrow> kind_of ev \<noteq> KError \<Longrightarrow> destroyed (tls_handler ev s)"
  "destroyed (tls_handler (SockError m) s) = destroyed s"
  by (cases ev; simp add: destroy_def respond_def)+

lemma bolt_first:
  "kind_of ev \<noteq> KSecureConnect \<Longrightarrow>
     destroyed (bolt_probe [ev]) \<and> length (sent (bolt_probe [ev])) = 1"
  by (cases ev)
    (simp_all add: bolt_probe_def signal_def emit_def bolt_listeners_def is_error_def
      destroy_def respond_def)

lemma bolt_unheard:
  "kind_of ev = KSecureConnect \<Longrightarrow>
     signal bolt_handler ev \<lparr>destroyed = False, listeners = bolt_listeners, sent = []\<rparr>
       = \<lparr>destroyed = False, listeners = bolt_listeners, sent = []\<rparr>"
  by (cases ev) (simp_all add: signal_def emit_def bolt_listeners_def is_error_def)

lemma tls_first:
  "kind_of ev \<noteq> KConnect \<Longrightarrow>
     destroyed (tls_probe [ev]) \<and> length (sent (tls_probe [ev])) = 1"
  by (cases ev)
    (simp_all add: tls_probe_def signal_def emit_def tls_listeners_def is_error_def
      destroy_def respond_def)

lemma tls_unheard:
  "kind_of ev = KConnect \<Longrightarrow>
     signal tls_handler ev \<lparr>destroyed = False, listeners = tls_listeners, sent = []\<rparr>
       = \<lparr>destroyed = False, listeners = tls_listeners, sent = []\<rparr>"
  by (cases ev) (simp_all add: signal_def emit_def tls_listeners_def is_error_def)

lemma bolt_later_ignored:
  "kind_of ev \<noteq> KSecureConnect \<Longrightarrow> bolt_probe (ev # evs) = bolt_probe [ev]"
  using bolt_first [of ev] by (simp add: bolt_probe_def fold_signal_destroyed)

lemma tls_later_ignored:
  "kind_of ev \<noteq> KConnect \<Longrightarrow> tls_probe (ev # evs) = tls_probe [ev]"
  using tls_first [of ev] by (simp add: tls_probe_def fold_signal_destroyed)

lemma bolt_skip: "kind_of ev = KSecureConnect \<Longrightarrow> bolt_probe (ev # evs) = bolt_probe evs"
  by (simp add: bolt_probe_def bolt_unheard)

lemma tls_skip: "kind_of ev = KConnect \<Longrightarrow> tls_probe (ev # evs) = tls_probe evs"
  by (simp add: tls_probe_def tls_unheard)

lemma bolt_at_most_one: "length (sent (bolt_probe evs)) \<le> 1"
proof (induction evs)
  case Nil
  then show ?case by (simp add: bolt_probe_def)
next
  case (Cons ev evs)
  show ?case
  proof (cases "kind_of ev = KSecureConnect")
    case True
    with Cons show ?thesis by (simp add: bolt_skip)
  next
    case False
    then show ?thesis
      using bolt_first [of ev] bolt_later_ignored [of ev evs] by simp
  qed
qed

lemma tls_at_most_one: "length (sent (tls_probe evs)) \<le> 1"
proof (induction evs)
  case Nil
  then show ?case by (simp add: tls_probe_def)
next
  case (Cons ev evs)
  show ?case
  proof (cases "kind_of ev = KConnect")
    case True
    with Cons show ?thesis by (simp add: tls_skip)
  next
    case False
    then show ?thesis
      using tls_first [of ev] tls_later_ignored [of ev evs] by simp
  qed
qed

lemma bolt_outcomes:
  "sent (bolt_probe [Connect]) = [(200, JObj [(''connect'', JBool True)])]"
  "sent (bolt_probe [Timeout]) = [(504, JObj [(''connect'', JBool False), (''error'', JStr ''timeout'')])]"
  "sent (bolt_probe [SockError m]) = [(502, JObj [(''connect'', JBool False), (''error'', JStr m)])]"
  by (simp_all add: bolt_probe_def signal_def emit_def bolt_listeners_def is_error_def
      destroy_def respond_def)

lemma tls_outcomes:
  "sent (tls_probe [SecureConnect a p c]) =
     [(200, JObj [(''ok'', JBool True),
                  (''info'', JObj [(''authorized'', JBool a), (''alpnProtocol'', js_or p JNull),
                                   (''cipher'', c)])])]"
  "sent (tls_probe [Timeout]) = [(504, JObj [(''ok'', JBool False), (''error'', JStr ''timeout'')])]"
  "sent (tls_probe [SockError m]) = [(502, JObj [(''ok'', JBool False), (''error'', JStr m)])]"
  by (simp_all add: tls_probe_def signal_def emit_def tls_listeners_def is_error_def
      destroy_def respond_def)

text \<open>
  C2. For every run of a probe, raw or TLS, and every sequence of events signalled to
  its socket (under the socket contract of \<open>signal\<close>): at most one answer is ever sent;
  the first event the probe listens for (connect, timeout or error; for TLS the secure
  connect, timeout or error) sends exactly one answer and leaves the socket destroyed,
  and whatever is signalled after it changes nothing; an event the probe does not listen
  for changes nothing either.
\<close>

theorem probe_single_fire:
  "length (sent (bolt_probe evs)) \<le> 1
   \<and> length (sent (tls_probe evs)) \<le> 1
   \<and> (kind_of ev \<noteq> KSecureConnect \<longrightarrow>
        bolt_probe (ev # evs) = bolt_probe [ev]
        \<and> destroyed (bolt_probe [ev]) \<and> length (sent (bolt_probe [ev])) = 1)
   \<and> (kind_of ev = KSecureConnect \<longrightarrow> bolt_probe (ev # evs) = bolt_probe evs)
   \<and> (kind_of ev \<noteq> KConnect \<longrightarrow>
        tls_probe (ev # evs) = tls_probe [ev]
        \<and> destroyed (tls_probe [ev]) \<and> length (sent (tls_probe [ev])) = 1)
   \<and> (kind_of ev = KConnect \<longrightarrow> tls_probe (ev # evs) = tls_probe evs)"
  using bolt_at_most_one tls_at_most_one bolt_first tls_first bolt_later_ignored tls_later_ignored
    bolt_skip tls_skip
  by blast

theorem probe_single_fire_witness:
  "sent (bolt_probe [SecureConnect True JNull JNull, Connect, Timeout, SockError ''late''])
     = [(200, JObj [(''connect'', JBool True)])]
   \<and> destroyed (bolt_probe [Connect])
   \<and> sent (tls_probe [Connect, SockError ''handshake'', Timeout, SockError ''again''])
     = [(502, JObj [(''ok'', JBool False), (''error'', JStr ''handshake'')])]
   \<and> destroyed (tls_probe [SockError ''handshake''])"
  using
    probe_single_fire [of "[Connect, Timeout, SockError ''late'']" "SecureConnect True JNull JNull"]
    probe_single_fire [of "[Timeout, SockError ''late'']" Connect]
    probe_single_fire [of "[SockError ''handshake'', Timeout, SockError ''again'']" Connect]
    probe_single_fire [of "[Timeout, SockError ''again'']" "SockError ''handshake''"]
  by (simp add: bolt_outcomes tls_outcomes)

section \<open>The origin check\<close>

lemma allow_list_member:
  "s \<in> set (ORIGIN_ALLOW_LIST env) \<longleftrightarrow>
     s \<noteq> [] \<and> (\<exists>p \<in> set (split_comma (case env of None \<Rightarrow> DEFAULT_ORIGINS
                                           | Some v \<Rightarrow> if v = [] then DEFAULT_ORIGINS else v)).
                   s = trim p)"
  by (auto simp: ORIGIN_ALLOW_LIST_def)

lemma default_allow_list:
  "ORIGIN_ALLOW_LIST None = [''https://nettedletters.org'', ''https://tool.nettedletters.org'']"
  by code_simp

text \<open>
  C9, as amended. For every request: with no \<open>Origin\<close> header, or an empty one, it
  reaches its handler; with an origin that is on the configured allow-list (the trimmed,
  non-empty parts of the comma-separated setting) it reaches its handler; with a
  non-empty origin that is not on the list it is refused before any handler, with the
  error \<open>Not allowed by CORS\<close>.
\<close>

theorem origin_gate:
  "cors_gate (ORIGIN_ALLOW_LIST env) None h = Reached h
   \<and> cors_gate (ORIGIN_ALLOW_LIST env) (Some []) h = Reached h
   \<and> (s \<in> set (ORIGIN_ALLOW_LIST env) \<longrightarrow> cors_gate (ORIGIN_ALLOW_LIST env) (Some s) h = Reached h)
   \<and> (s \<noteq> [] \<and> s \<notin> set (ORIGIN_ALLOW_LIST env) \<longrightarrow>
        cors_gate (ORIGIN_ALLOW_LIST env) (Some s) h
          = Refused (JsError JUndefined (JStr (''Not allowed by CORS: '' @ s))))
   \<and> (s \<in> set (ORIGIN_ALLOW_LIST env) \<longleftrightarrow>
        s \<noteq> [] \<and> (\<exists>p \<in> set (split_comma (case env of None \<Rightarrow> DEFAULT_ORIGINS
                                              | Some v \<Rightarrow> if v = [] then DEFAULT_ORIGINS else v)).
                      s = trim p))"
  using allow_list_member [of s env] by (simp add: cors_gate_def origin_check_def)

theorem origin_gate_witness:
  "cors_gate (ORIGIN_ALLOW_LIST None) None () = Reached ()
   \<and> cors_gate (ORIGIN_ALLOW_LIST None) (Some ''https://tool.nettedletters.org'') () = Reached ()
   \<and> cors_gate (ORIGIN_ALLOW_LIST None) (Some ''https://evil.example'') ()
       = Refused (JsError JUndefined (JStr ''Not allowed by CORS: https://evil.example''))"
  using origin_gate [of None "()" "''https://tool.nettedletters.org''"]
    origin_gate [of None "()" "''https://evil.example''"]
  by (simp add: default_allow_list)

text \<open>
  C9, as stated, fails for a request that declares the empty origin: it is not on the
  list, and it reaches its handler.
\<close>

theorem empty_origin_counterexample:
  "[] \<notin> set (ORIGIN_ALLOW_LIST None) \<and> cors_gate (ORIGIN_ALLOW_LIST None) (Some []) () = Reached ()"
  by (simp add: allow_list_member cors_gate_def origin_check_def)

end
